theory Spec2Isabelle
  imports Main "HOL-Library.Char_ord" "HOL-Library.List_Lexorder"
begin

section \<open>Data model of the chat window registry\<close>

text \<open>
  The development embeds \<^verbatim>\<open>src/contexts/ChatContext.tsx\<close>. The provider component holds
  three pieces of React state: the list \<^verbatim>\<open>chatWindows\<close>, the set \<^verbatim>\<open>closedChats\<close> and the
  record \<^verbatim>\<open>lastSeenMessageIds\<close>. Every operation writes through a functional updater
  (\<^verbatim>\<open>setChatWindows(prev => ...)\<close>), so an operation is a function from the current state to
  the next one.

  The type \<^verbatim>\<open>UserProfile\<close> is imported from a module outside the two source files; the
  record below has exactly the fields that the object literals of lines 99 to 143 give it.
  The fields called \<^verbatim>\<open>id\<close> in the source are \<open>user_id\<close> and \<open>window_id\<close> here, the
  coordinates \<^verbatim>\<open>x\<close> and \<^verbatim>\<open>y\<close> are \<open>pos_x\<close> and \<open>pos_y\<close>. Timestamps are natural
  numbers; pixel coordinates are integers; the unread counter is a natural number, on
  which \<^verbatim>\<open>(window.unreadCount || 0)\<close> is the counter itself.
\<close>

record UserProfile =
  user_id :: string
  uid :: string
  displayName :: string
  username :: string
  photoURL :: string
  email :: string
  createdAt :: nat
  updatedAt :: nat
  isAgeVerified :: bool
  isVerified :: bool
  role :: string
  status :: string

record Position =
  pos_x :: int
  pos_y :: int

record ChatWindow =
  window_id :: string
  user :: UserProfile
  isMinimized :: bool
  position :: Position
  unreadCount :: nat

record Registry =
  chatWindows :: "ChatWindow list"
  closedChats :: "string set"
  lastSeenMessageIds :: "string \<rightharpoonup> string"

text \<open>The browser viewport read through \<^verbatim>\<open>window.innerWidth\<close> and \<^verbatim>\<open>window.innerHeight\<close>.\<close>

record Viewport =
  innerWidth :: int
  innerHeight :: int

text \<open>What the handlers read of a conversation document and of a message document.\<close>

record ChatDoc =
  chat_id :: string
  participants :: "string list"

record MessageData =
  senderId :: string
  senderName :: string
  senderPhotoURL :: "string option"

record MessageDoc =
  doc_id :: string
  doc_data :: MessageData

text \<open>
  The stored profile of a sender as \<^verbatim>\<open>senderDoc.data()\<close> returns it: every field may be
  absent. The outcome of \<^verbatim>\<open>await getDoc(...)\<close> is the document, its absence, or a fault.
\<close>

record ProfileDoc =
  p_displayName :: "string option"
  p_username :: "string option"
  p_photoURL :: "string option"
  p_email :: "string option"
  p_createdAt :: "nat option"
  p_updatedAt :: "nat option"
  p_isAgeVerified :: "bool option"
  p_isVerified :: "bool option"
  p_role :: "string option"
  p_status :: "string option"

datatype ProfileFetch = Exists ProfileDoc | NotFound | Threw

text \<open>
  A profile lookup as the suspended handler sees it when it resumes: the outcome of the
  fetch and the two readings of \<^verbatim>\<open>Timestamp.now()\<close>.
\<close>

record Lookup =
  fetched :: ProfileFetch
  nowCreated :: nat
  nowUpdated :: nat

section \<open>JavaScript helpers\<close>

text \<open>\<^verbatim>\<open>a || b\<close> on an optional string: the empty string and \<^verbatim>\<open>undefined\<close> are falsy.\<close>

definition or_str :: "string option \<Rightarrow> string \<Rightarrow> string" where
  "or_str a b = (case a of None \<Rightarrow> b | Some s \<Rightarrow> if s = [] then b else s)"

definition or_bool :: "bool option \<Rightarrow> bool \<Rightarrow> bool" where
  "or_bool a b = (case a of None \<Rightarrow> b | Some v \<Rightarrow> if v then True else b)"

text \<open>On an optional timestamp, a number in the model: \<open>0\<close> and \<^verbatim>\<open>undefined\<close> are falsy.\<close>

definition or_time :: "nat option \<Rightarrow> nat \<Rightarrow> nat" where
  "or_time a b = (case a of None \<Rightarrow> b | Some t \<Rightarrow> if t = 0 then b else t)"

text \<open>\<^verbatim>\<open>Array.prototype.join\<close> on an array of strings.\<close>

fun join :: "string \<Rightarrow> string list \<Rightarrow> string" where
  "join sep [] = []"
| "join sep [s] = s"
| "join sep (s # t # ts) = s @ sep @ join sep (t # ts)"

text \<open>
  \<^verbatim>\<open>[a, b].sort().join('_')\<close>: the default sort compares strings code unit by code
  unit, which on the byte strings of the model is the lexicographic order of lists of
  characters.
\<close>

definition chatId :: "string \<Rightarrow> string \<Rightarrow> string" where
  "chatId a b = join ''_'' (sort [a, b])"

section \<open>Public operations\<close>

text \<open>The cascading default position of lines 151 to 154 and 191 to 194.\<close>

definition newPosition :: "Viewport \<Rightarrow> ChatWindow list \<Rightarrow> Position" where
  "newPosition vp prev =
     \<lparr>pos_x = max 0 (innerWidth vp - 320 - int (length prev) * 20),
      pos_y = max 0 (innerHeight vp - 400 - int (length prev) * 20)\<rparr>"

definition openChat :: "Viewport \<Rightarrow> UserProfile \<Rightarrow> Registry \<Rightarrow> Registry" where
  "openChat vp u s =
     s\<lparr>chatWindows :=
         (let prev = chatWindows s in
          if list_ex (\<lambda>w. uid (user w) = uid u) prev
          then map (\<lambda>w. if uid (user w) = uid u
                         then w\<lparr>isMinimized := False, unreadCount := 0\<rparr> else w) prev
          else prev @ [\<lparr>window_id = uid u, user = u, isMinimized = False,
                        position = newPosition vp prev, unreadCount = 0\<rparr>])\<rparr>"

text \<open>
  \<^verbatim>\<open>closeChat\<close> updates two pieces of state and, when a user is signed in, asks the
  store to clear the typing field of the conversation document. The request is returned
  beside the new state; its failure is only logged.
\<close>

datatype RemoteWrite = SetTypingNull string

definition closeChat :: "string option \<Rightarrow> string \<Rightarrow> Registry \<Rightarrow> Registry \<times> RemoteWrite option" where
  "closeChat authUser userId s =
     (s\<lparr>chatWindows := filter (\<lambda>w. uid (user w) \<noteq> userId) (chatWindows s),
        closedChats := insert userId (closedChats s)\<rparr>,
      case authUser of
        None \<Rightarrow> None
      | Some me \<Rightarrow> Some (SetTypingNull (chatId me userId)))"

definition minimizeChat :: "string \<Rightarrow> Registry \<Rightarrow> Registry" where
  "minimizeChat userId s =
     s\<lparr>chatWindows :=
         map (\<lambda>w. if uid (user w) = userId then w\<lparr>isMinimized := \<not> isMinimized w\<rparr> else w)
           (chatWindows s)\<rparr>"

definition updatePosition :: "string \<Rightarrow> Position \<Rightarrow> Registry \<Rightarrow> Registry" where
  "updatePosition userId p s =
     s\<lparr>chatWindows :=
         map (\<lambda>w. if uid (user w) = userId then w\<lparr>position := p\<rparr> else w) (chatWindows s)\<rparr>"

text \<open>
  \<^verbatim>\<open>markAsRead\<close> first updates the local state and then talks to the store inside a
  \<^verbatim>\<open>try\<close> block whose \<^verbatim>\<open>catch\<close> only logs. The store is a parameter: \<open>getDocs\<close>
  answers the query for the unread messages of a conversation sent by a user (or
  throws), \<open>commitOk\<close> tells whether the batch commit resolves. The second component of
  the result records what happened remotely.
\<close>

datatype 'a outcome = Resolved 'a | Rejected

datatype RemoteRead =
    NotSignedIn
  | QueryFailed string
  | NothingUnread string
  | Committed string "string list"
  | CommitFailed string "string list"

definition markAsRead ::
  "string option \<Rightarrow> (string \<Rightarrow> string \<Rightarrow> string list outcome) \<Rightarrow> bool \<Rightarrow> string \<Rightarrow> Registry
    \<Rightarrow> Registry \<times> RemoteRead" where
  "markAsRead currentUser getDocs commitOk userId s =
     (s\<lparr>chatWindows :=
          map (\<lambda>w. if uid (user w) = userId then w\<lparr>unreadCount := 0\<rparr> else w) (chatWindows s)\<rparr>,
      case currentUser of
        None \<Rightarrow> NotSignedIn
      | Some me \<Rightarrow>
          (let cid = chatId me userId in
           case getDocs cid userId of
             Rejected \<Rightarrow> QueryFailed cid
           | Resolved refs \<Rightarrow>
               if refs = [] then NothingUnread cid
               else if commitOk then Committed cid refs
               else CommitFailed cid refs))"

text \<open>Which conversation a remote read of \<^verbatim>\<open>markAsRead\<close> addressed, if any.\<close>

fun readChat :: "RemoteRead \<Rightarrow> string option" where
  "readChat NotSignedIn = None"
| "readChat (QueryFailed c) = Some c"
| "readChat (NothingUnread c) = Some c"
| "readChat (Committed c refs) = Some c"
| "readChat (CommitFailed c refs) = Some c"

section \<open>The subscription effect\<close>

text \<open>
  The effect of lines 50 to 176 registers the listeners. The callbacks it creates are
  closures: they read \<^verbatim>\<open>chatWindows\<close>, \<^verbatim>\<open>closedChats\<close> and \<^verbatim>\<open>lastSeenMessageIds\<close> as the
  render in which the effect ran bound them, and they write through functional updaters,
  which act on the state current at that moment. The model therefore gives a handler two
  registries: \<open>cap\<close>, the values captured by the closure, and \<open>s\<close>, the current state.
  The effect runs again, and captures afresh, after a render in which \<^verbatim>\<open>user\<close>,
  \<^verbatim>\<open>chatWindows\<close> or \<^verbatim>\<open>closedChats\<close> has changed (line 176).
\<close>

definition otherParticipantId :: "string \<Rightarrow> ChatDoc \<Rightarrow> string option" where
  "otherParticipantId me c = find (\<lambda>i. i \<noteq> me) (participants c)"

text \<open>
  Lines 65 to 71: whether the effect registers a message listener for a conversation.
  The test \<^verbatim>\<open>!otherParticipantId\<close> also rejects the empty string.
\<close>

definition listensTo :: "string \<Rightarrow> Registry \<Rightarrow> ChatDoc \<Rightarrow> bool" where
  "listensTo me cap c =
     (case otherParticipantId me c of
        None \<Rightarrow> False
      | Some other \<Rightarrow> other \<noteq> [] \<and> other \<notin> closedChats cap)"

text \<open>
  Lines 78 to 166 up to the \<^verbatim>\<open>await\<close>. The result is the state after the synchronous
  part and, when the handler has suspended on the profile fetch, the message whose
  sender is being looked up.
\<close>

definition onMessagesSnapshot ::
  "string \<Rightarrow> Registry \<Rightarrow> string \<Rightarrow> MessageDoc list \<Rightarrow> Registry \<Rightarrow> Registry \<times> MessageData option" where
  "onMessagesSnapshot me cap cid docs s =
     (case docs of
        [] \<Rightarrow> (s, None)
      | latestDoc # _ \<Rightarrow>
          (let messageData = doc_data latestDoc; sid = senderId messageData in
           if sid = me then (s, None)
           else if lastSeenMessageIds cap cid = Some (doc_id latestDoc) then (s, None)
           else
             (let s1 = s\<lparr>lastSeenMessageIds := (lastSeenMessageIds s)(cid \<mapsto> doc_id latestDoc)\<rparr> in
              case find (\<lambda>w. uid (user w) = sid) (chatWindows cap) of
                None \<Rightarrow> (s1, Some messageData)
              | Some existingWindow \<Rightarrow>
                  (s1\<lparr>chatWindows :=
                        map (\<lambda>w. if uid (user w) = sid
                                  then w\<lparr>unreadCount := unreadCount w + 1\<rparr> else w)
                          (chatWindows s1)\<rparr>,
                   None))))"

text \<open>Lines 94 to 144: the profile of the sender, from the outcome of the fetch.\<close>

definition senderUser :: "Lookup \<Rightarrow> MessageData \<Rightarrow> UserProfile" where
  "senderUser l messageData =
     (case fetched l of
        Exists senderProfile \<Rightarrow>
          \<lparr>user_id = senderId messageData,
           uid = senderId messageData,
           displayName = or_str (p_displayName senderProfile) (senderName messageData),
           username = or_str (p_username senderProfile) (senderId messageData),
           photoURL = or_str (p_photoURL senderProfile) (or_str (senderPhotoURL messageData) ''''),
           email = or_str (p_email senderProfile) '''',
           createdAt = or_time (p_createdAt senderProfile) (nowCreated l),
           updatedAt = or_time (p_updatedAt senderProfile) (nowUpdated l),
           isAgeVerified = or_bool (p_isAgeVerified senderProfile) False,
           isVerified = or_bool (p_isVerified senderProfile) False,
           role = or_str (p_role senderProfile) ''user'',
           status = or_str (p_status senderProfile) ''active''\<rparr>
      | NotFound \<Rightarrow>
          \<lparr>user_id = senderId messageData,
           uid = senderId messageData,
           displayName = senderName messageData,
           username = senderName messageData,
           photoURL = or_str (senderPhotoURL messageData) '''',
           email = '''',
           createdAt = nowCreated l,
           updatedAt = nowUpdated l,
           isAgeVerified = False,
           isVerified = False,
           role = ''user'',
           status = ''active''\<rparr>
      | Threw \<Rightarrow>
          \<lparr>user_id = senderId messageData,
           uid = senderId messageData,
           displayName = senderName messageData,
           username = senderName messageData,
           photoURL = or_str (senderPhotoURL messageData) '''',
           email = '''',
           createdAt = nowCreated l,
           updatedAt = nowUpdated l,
           isAgeVerified = False,
           isVerified = False,
           role = ''user'',
           status = ''active''\<rparr>)"

text \<open>
  Lines 145 to 158: the suspended handler resumes and appends the window to the list
  current at that moment.
\<close>

definition afterProfileLookup :: "Viewport \<Rightarrow> Lookup \<Rightarrow> MessageData \<Rightarrow> Registry \<Rightarrow> Registry" where
  "afterProfileLookup vp l messageData s =
     s\<lparr>chatWindows :=
         (let prev = chatWindows s in
          prev @ [\<lparr>window_id = senderId messageData,
                   user = senderUser l messageData,
                   isMinimized = True,
                   position = newPosition vp prev,
                   unreadCount = 1\<rparr>])\<rparr>"

text \<open>
  A whole run of the handler with nothing happening while the fetch is pending.
\<close>

definition handleSnapshot ::
  "string \<Rightarrow> Viewport \<Rightarrow> Lookup \<Rightarrow> Registry \<Rightarrow> string \<Rightarrow> MessageDoc list \<Rightarrow> Registry \<Rightarrow> Registry" where
  "handleSnapshot me vp l cap cid docs s =
     (case onMessagesSnapshot me cap cid docs s of
        (s1, None) \<Rightarrow> s1
      | (s1, Some messageData) \<Rightarrow> afterProfileLookup vp l messageData s1)"

text \<open>
  A message snapshot of a conversation reaches the handler only where the effect has
  registered a listener for that conversation.
\<close>

definition deliver ::
  "string \<Rightarrow> Registry \<Rightarrow> ChatDoc \<Rightarrow> MessageDoc list \<Rightarrow> Registry \<Rightarrow> Registry \<times> MessageData option" where
  "deliver me cap c docs s =
     (if listensTo me cap c then onMessagesSnapshot me cap (chat_id c) docs s else (s, None))"

text \<open>
  Lines 61 to 170: on every chats snapshot the callback registers one message listener
  for each conversation of the snapshot that is not skipped, and pushes its unsubscribe
  function; the listeners registered on earlier chats snapshots of the same effect run
  stay registered until the cleanup of line 173. The list holds the conversation of each
  registered listener, in the order of registration.
\<close>

definition onChatsSnapshot :: "string \<Rightarrow> Registry \<Rightarrow> ChatDoc list \<Rightarrow> string list \<Rightarrow> string list" where
  "onChatsSnapshot me cap chats listeners =
     listeners @ map chat_id (filter (listensTo me cap) chats)"

text \<open>
  The feed hands a message snapshot of a conversation to every listener registered for
  it, one after the other. All are closures of the same effect run; each runs up to its
  \<^verbatim>\<open>await\<close>, and the result collects the handlers left suspended.
\<close>

fun dispatch ::
  "string \<Rightarrow> Registry \<Rightarrow> string list \<Rightarrow> string \<Rightarrow> MessageDoc list \<Rightarrow> Registry
    \<Rightarrow> Registry \<times> MessageData list" where
  "dispatch me cap [] cid docs s = (s, [])"
| "dispatch me cap (k # ks) cid docs s =
     (if k = cid
      then (case onMessagesSnapshot me cap cid docs s of
              (s1, p) \<Rightarrow>
                (case dispatch me cap ks cid docs s1 of
                   (s2, ps) \<Rightarrow> (s2, (case p of None \<Rightarrow> [] | Some m \<Rightarrow> [m]) @ ps)))
      else dispatch me cap ks cid docs s)"

text \<open>The suspended handlers resume one after the other, each with its own lookup.\<close>

fun resumeAll :: "Viewport \<Rightarrow> (Lookup \<times> MessageData) list \<Rightarrow> Registry \<Rightarrow> Registry" where
  "resumeAll vp [] s = s"
| "resumeAll vp ((l, m) # rest) s = resumeAll vp rest (afterProfileLookup vp l m s)"

text \<open>The invariant of the data model: at most one window per counterpart.\<close>

definition uniqueWindows :: "ChatWindow list \<Rightarrow> bool" where
  "uniqueWindows ws = distinct (map (\<lambda>w. uid (user w)) ws)"

definition windowsOf :: "string \<Rightarrow> ChatWindow list \<Rightarrow> ChatWindow list" where
  "windowsOf u ws = filter (\<lambda>w. uid (user w) = u) ws"

section \<open>Sequences of calls and sample data\<close>

text \<open>What the state hooks hold when the provider mounts; \<open>stored\<close> is the closed set read
  from the local storage.\<close>

definition initialRegistry :: "string set \<Rightarrow> Registry" where
  "initialRegistry stored =
     \<lparr>chatWindows = [], closedChats = stored, lastSeenMessageIds = Map.empty\<rparr>"

text \<open>Successive calls of \<^verbatim>\<open>openChat\<close>, one per user of a list, in a fixed viewport.\<close>

definition openEach :: "Viewport \<Rightarrow> UserProfile list \<Rightarrow> Registry \<Rightarrow> Registry" where
  "openEach vp us s = foldl (\<lambda>st u. openChat vp u st) s us"

text \<open>The window that \<^verbatim>\<open>openChat\<close> appends for a user when \<open>k\<close> windows are present.\<close>

definition cascade :: "Viewport \<Rightarrow> nat \<Rightarrow> UserProfile \<Rightarrow> ChatWindow" where
  "cascade vp k u =
     \<lparr>window_id = uid u, user = u, isMinimized = False,
      position = \<lparr>pos_x = max 0 (innerWidth vp - 320 - int k * 20),
                  pos_y = max 0 (innerHeight vp - 400 - int k * 20)\<rparr>,
      unreadCount = 0\<rparr>"

text \<open>Sample profiles and windows for the concrete instances below.\<close>

definition testUser :: "string \<Rightarrow> UserProfile" where
  "testUser n =
     \<lparr>user_id = n, uid = n, displayName = n, username = n, photoURL = '''', email = '''',
      createdAt = 0, updatedAt = 0, isAgeVerified = False, isVerified = False,
      role = ''user'', status = ''active''\<rparr>"

definition testWindow :: "string \<Rightarrow> bool \<Rightarrow> nat \<Rightarrow> ChatWindow" where
  "testWindow n m k =
     \<lparr>window_id = n, user = testUser n, isMinimized = m,
      position = \<lparr>pos_x = 100, pos_y = 200\<rparr>, unreadCount = k\<rparr>"

definition testViewport :: Viewport where
  "testViewport = \<lparr>innerWidth = 350, innerHeight = 1000\<rparr>"

text \<open>
  A conversation between \<open>alice\<close>, the signed-in user, and \<open>bob\<close>; a message of \<open>bob\<close>
  as the latest document of that conversation; a profile lookup that throws; a registry
  in which \<open>bob\<close> has a minimized window with nothing unread.
\<close>

definition bobChat :: ChatDoc where
  "bobChat = \<lparr>chat_id = ''alice_bob'', participants = [''alice'', ''bob'']\<rparr>"

definition bobMessage :: MessageDoc where
  "bobMessage =
     \<lparr>doc_id = ''m1'',
      doc_data = \<lparr>senderId = ''bob'', senderName = ''Bob'', senderPhotoURL = Some ''bob.png''\<rparr>\<rparr>"

definition failedLookup :: Lookup where
  "failedLookup = \<lparr>fetched = Threw, nowCreated = 7, nowUpdated = 8\<rparr>"

definition bobOpen :: Registry where
  "bobOpen = (initialRegistry {})\<lparr>chatWindows := [testWindow ''bob'' True 0]\<rparr>"

text \<open>
  A second message of \<open>bob\<close>; the registry reached from the empty one when a message of
  \<open>bob\<close> arrives, \<^verbatim>\<open>openChat\<close> for \<open>bob\<close> runs while the profile fetch is pending, and
  the handler resumes; a registry in which only \<open>carol\<close> has a window.
\<close>

definition bobMessage2 :: MessageDoc where
  "bobMessage2 =
     \<lparr>doc_id = ''m2'',
      doc_data = \<lparr>senderId = ''bob'', senderName = ''Bob'', senderPhotoURL = Some ''bob.png''\<rparr>\<rparr>"

definition bobTwice :: Registry where
  "bobTwice =
     afterProfileLookup testViewport failedLookup (doc_data bobMessage)
       (openChat testViewport (testUser ''bob'')
          (fst (onMessagesSnapshot ''alice'' (initialRegistry {}) ''alice_bob'' [bobMessage]
                  (initialRegistry {}))))"


section \<open>Updating the windows of one user\<close>

text \<open>
  Four operations and the handler map over the list and change the windows of one user
  only. The lemmas below are about that shape of update.
\<close>

lemma map_if_absent:
  "\<not> list_ex (\<lambda>w. uid (user w) = a) ws \<Longrightarrow>
   map (\<lambda>w. if uid (user w) = a then f w else w) ws = ws"
  by (induction ws) simp_all

lemma list_ex_map_if:
  "(\<And>w. user (f w) = user w) \<Longrightarrow>
   list_ex (\<lambda>w. uid (user w) = b) (map (\<lambda>w. if uid (user w) = a then f w else w) ws)
     = list_ex (\<lambda>w. uid (user w) = b) ws"
  by (induction ws) simp_all

lemma map_if_twice:
  "(\<And>w. user (f w) = user w) \<Longrightarrow> (\<And>w. f (f w) = f w) \<Longrightarrow>
   map (\<lambda>w. if uid (user w) = a then f w else w)
     (map (\<lambda>w. if uid (user w) = a then f w else w) ws)
     = map (\<lambda>w. if uid (user w) = a then f w else w) ws"
  by (induction ws) simp_all

lemma uids_map_if:
  "(\<And>w. user (f w) = user w) \<Longrightarrow>
   map (\<lambda>w. uid (user w)) (map (\<lambda>w. if uid (user w) = a then f w else w) ws)
     = map (\<lambda>w. uid (user w)) ws"
  by (induction ws) simp_all

section \<open>The conversation identifier\<close>

lemma sort_pair_commute: "sort [a, b] = sort [b, (a::string)]"
  by auto

text \<open>
  Claim C9. The identifier of the conversation of two users does not depend on the order
  in which they are given, and for a signed-in user \<open>me\<close> and a counterpart \<open>U\<close> the
  typing document that \<^verbatim>\<open>closeChat\<close> writes and the messages that \<^verbatim>\<open>markAsRead\<close> reads
  are addressed by that one identifier.
\<close>

theorem chatId_symmetric:
  "chatId a b = chatId b a
   \<and> snd (closeChat (Some me) U s) = Some (SetTypingNull (chatId U me))
   \<and> readChat (snd (markAsRead (Some me) getDocs commitOk U s')) = Some (chatId U me)"
proof -
  have sym: "chatId x y = chatId y x" for x y
    by (simp only: chatId_def sort_pair_commute)
  have close: "snd (closeChat (Some me) U s) = Some (SetTypingNull (chatId me U))"
    by (simp add: closeChat_def)
  have read: "readChat (snd (markAsRead (Some me) getDocs commitOk U s')) = Some (chatId me U)"
    by (simp add: markAsRead_def Let_def split: outcome.splits)
  show ?thesis
    using close read by (simp add: sym [of U me] sym [of a b])
qed

section \<open>Opening windows\<close>

lemma openChat_new:
  "\<not> list_ex (\<lambda>w. uid (user w) = uid u) (chatWindows s) \<Longrightarrow>
   chatWindows (openChat vp u s) = chatWindows s @ [cascade vp (length (chatWindows s)) u]"
  by (simp add: openChat_def cascade_def newPosition_def Let_def)

lemma openChat_existing:
  "list_ex (\<lambda>w. uid (user w) = uid u) (chatWindows s) \<Longrightarrow>
   chatWindows (openChat vp u s) =
     map (\<lambda>w. if uid (user w) = uid u then w\<lparr>isMinimized := False, unreadCount := 0\<rparr> else w)
       (chatWindows s)"
  by (simp add: openChat_def Let_def)

lemma openChat_has_window:
  "list_ex (\<lambda>w. uid (user w) = uid u) (chatWindows (openChat vp u s))"
  by (cases "list_ex (\<lambda>w. uid (user w) = uid u) (chatWindows s)")
     (simp_all add: openChat_def Let_def list_ex_map_if)

lemma openChat_windows_opened:
  "list_all (\<lambda>w. \<not> isMinimized w \<and> unreadCount w = 0)
     (windowsOf (uid u) (chatWindows (openChat vp u s)))"
  by (auto simp: openChat_def Let_def list_all_iff windowsOf_def list_ex_iff)

lemma openChat_count:
  "length (windowsOf (uid u) (chatWindows (openChat vp u s)))
     = max 1 (length (windowsOf (uid u) (chatWindows s)))"
proof (cases "list_ex (\<lambda>w. uid (user w) = uid u) (chatWindows s)")
  case True
  have eq: "windowsOf (uid u)
        (map (\<lambda>w. if uid (user w) = uid u then w\<lparr>isMinimized := False, unreadCount := 0\<rparr> else w) ws)
      = map (\<lambda>w. w\<lparr>isMinimized := False, unreadCount := 0\<rparr>) (windowsOf (uid u) ws)" for ws
    by (induction ws) (simp_all add: windowsOf_def)
  from True have "windowsOf (uid u) (chatWindows s) \<noteq> []"
    by (auto simp: windowsOf_def list_ex_iff filter_empty_conv)
  then have "1 \<le> length (windowsOf (uid u) (chatWindows s))"
    by (cases "windowsOf (uid u) (chatWindows s)") simp_all
  then show ?thesis
    by (simp add: openChat_existing [OF True] eq)
next
  case False
  then have "windowsOf (uid u) (chatWindows s) = []"
    by (auto simp: windowsOf_def list_ex_iff filter_empty_conv)
  then show ?thesis using False
    by (simp add: openChat_def Let_def windowsOf_def)
qed

lemma openChat_idem: "openChat vp u (openChat vp u s) = openChat vp u s"
proof -
  have "chatWindows (openChat vp u (openChat vp u s)) = chatWindows (openChat vp u s)"
    unfolding openChat_existing [OF openChat_has_window]
    by (cases "list_ex (\<lambda>w. uid (user w) = uid u) (chatWindows s)")
       (simp_all add: openChat_def Let_def map_if_twice map_if_absent)
  then show ?thesis
    by (simp add: openChat_def)
qed

text \<open>
  From a state with at most one window for the user \<open>u\<close>, opening the chat with \<open>u\<close>
  twice leaves exactly one window for \<open>u\<close>, not minimized and with no unread message,
  and the second call changes nothing.
\<close>

lemma openChat_twice:
  assumes "length (windowsOf (uid u) (chatWindows s)) \<le> 1"
  shows "openChat vp u (openChat vp u s) = openChat vp u s
    \<and> length (windowsOf (uid u) (chatWindows (openChat vp u (openChat vp u s)))) = 1
    \<and> list_all (\<lambda>w. \<not> isMinimized w \<and> unreadCount w = 0)
         (windowsOf (uid u) (chatWindows (openChat vp u (openChat vp u s))))"
  using assms openChat_count [of u vp s] openChat_windows_opened [of u vp s]
  by (simp add: openChat_idem)

lemma cascade_uids:
  "map (\<lambda>w. uid (user w)) (map (\<lambda>(k, u). cascade vp k u) (enumerate n us)) = map uid us"
  by (induction us arbitrary: n) (simp_all add: cascade_def)

lemma openEach_snoc: "openEach vp (us @ [u]) s = openChat vp u (openEach vp us s)"
  by (simp add: openEach_def)

lemma openEach_windows:
  "distinct (map uid us) \<Longrightarrow> chatWindows s = [] \<Longrightarrow>
   chatWindows (openEach vp us s) = map (\<lambda>(k, u). cascade vp k u) (enumerate 0 us)"
proof (induction us rule: rev_induct)
  case Nil
  then show ?case by (simp add: openEach_def)
next
  case (snoc u us)
  then have IH: "chatWindows (openEach vp us s) = map (\<lambda>(k, u). cascade vp k u) (enumerate 0 us)"
    by simp
  have uids: "map (\<lambda>w. uid (user w)) (chatWindows (openEach vp us s)) = map uid us"
    unfolding IH by (rule cascade_uids)
  from snoc.prems have "uid u \<notin> set (map uid us)" by simp
  then have "uid u \<notin> set (map (\<lambda>w. uid (user w)) (chatWindows (openEach vp us s)))"
    unfolding uids .
  then have fresh: "\<not> list_ex (\<lambda>w. uid (user w) = uid u) (chatWindows (openEach vp us s))"
    by (force simp: list_ex_iff)
  have len: "length (chatWindows (openEach vp us s)) = length us"
    unfolding IH by simp
  show ?case
    unfolding openEach_snoc openChat_new [OF fresh] len
    by (simp add: IH enumerate_append_eq)
qed

text \<open>
  Claim C7. Starting with no window, in a fixed viewport, calls of \<^verbatim>\<open>openChat\<close> for users
  with pairwise distinct ids create one window per call; the window of call \<open>k\<close>
  (counted from 0) lies at \<open>max 0 (innerWidth - 320 - 20 k)\<close>, \<open>max 0 (innerHeight - 400 -
  20 k)\<close>. Hence each coordinate never exceeds that of the window before, and wherever it
  is above the floor 0 it is exactly 20 less than that of the window before.
\<close>

theorem openChat_cascade:
  assumes "distinct (map uid us)" and "chatWindows s = []" and "k < length us"
  shows "length (chatWindows (openEach vp us s)) = length us
    \<and> user (chatWindows (openEach vp us s) ! k) = us ! k
    \<and> pos_x (position (chatWindows (openEach vp us s) ! k)) = max 0 (innerWidth vp - 320 - 20 * int k)
    \<and> pos_y (position (chatWindows (openEach vp us s) ! k)) = max 0 (innerHeight vp - 400 - 20 * int k)
    \<and> (0 < k \<longrightarrow>
         pos_x (position (chatWindows (openEach vp us s) ! k))
           \<le> pos_x (position (chatWindows (openEach vp us s) ! (k - 1)))
       \<and> (0 < pos_x (position (chatWindows (openEach vp us s) ! k)) \<longrightarrow>
            pos_x (position (chatWindows (openEach vp us s) ! k))
              = pos_x (position (chatWindows (openEach vp us s) ! (k - 1))) - 20)
       \<and> pos_y (position (chatWindows (openEach vp us s) ! k))
           \<le> pos_y (position (chatWindows (openEach vp us s) ! (k - 1)))
       \<and> (0 < pos_y (position (chatWindows (openEach vp us s) ! k)) \<longrightarrow>
            pos_y (position (chatWindows (openEach vp us s) ! k))
              = pos_y (position (chatWindows (openEach vp us s) ! (k - 1))) - 20))"
proof -
  have ws: "chatWindows (openEach vp us s) = map (\<lambda>(k, u). cascade vp k u) (enumerate 0 us)"
    using assms(1,2) by (rule openEach_windows)
  have nth: "j < length us \<Longrightarrow> chatWindows (openEach vp us s) ! j = cascade vp j (us ! j)" for j
    unfolding ws by (simp add: nth_enumerate_eq)
  have k1: "0 < k \<Longrightarrow> k - 1 < length us" using assms(3) by simp
  have ik: "0 < k \<Longrightarrow> int (k - 1) = int k - 1" by simp
  have len: "length (chatWindows (openEach vp us s)) = length us"
    unfolding ws by simp
  have wk: "chatWindows (openEach vp us s) ! k = cascade vp k (us ! k)"
    using assms(3) by (rule nth)
  show ?thesis
  proof (cases "0 < k")
    case False
    then show ?thesis unfolding len wk by (simp add: cascade_def)
  next
    case True
    then have wk1: "chatWindows (openEach vp us s) ! (k - 1) = cascade vp (k - 1) (us ! (k - 1))"
      using k1 nth by blast
    from True have ik': "int (k - 1) = int k - 1" by (rule ik)
    show ?thesis
      unfolding len wk wk1 using True by (simp add: cascade_def ik' max_def algebra_simps)
  qed
qed

theorem openChat_cascade_witness:
  "distinct (map uid [testUser ''a'', testUser ''b'', testUser ''c''])
   \<and> chatWindows (initialRegistry {}) = []
   \<and> (2::nat) < length [testUser ''a'', testUser ''b'', testUser ''c'']
   \<and> map (\<lambda>w. (pos_x (position w), pos_y (position w)))
        (chatWindows (openEach testViewport
           [testUser ''a'', testUser ''b'', testUser ''c''] (initialRegistry {})))
      = [(30, 600), (10, 580), (0, 560)]
   \<and> pos_x (position (chatWindows (openEach testViewport
          [testUser ''a'', testUser ''b'', testUser ''c''] (initialRegistry {})) ! 2)) = 0
   \<and> pos_y (position (chatWindows (openEach testViewport
          [testUser ''a'', testUser ''b'', testUser ''c''] (initialRegistry {})) ! 2))
      = pos_y (position (chatWindows (openEach testViewport
          [testUser ''a'', testUser ''b'', testUser ''c''] (initialRegistry {})) ! (2 - 1))) - 20"
  using openChat_cascade [of "[testUser ''a'', testUser ''b'', testUser ''c'']"
      "initialRegistry {}" 2 testViewport]
  by (simp add: testUser_def initialRegistry_def testViewport_def openEach_def openChat_def
      newPosition_def Let_def)

section \<open>Closing windows\<close>

lemma closeChat_removes:
  "\<not> list_ex (\<lambda>w. uid (user w) = U) (chatWindows (fst (closeChat au U s)))"
  by (simp add: closeChat_def list_ex_iff)

lemma not_listening_when_closed:
  "otherParticipantId me c = Some U \<Longrightarrow> U \<in> closedChats cap \<Longrightarrow> \<not> listensTo me cap c"
  by (simp add: listensTo_def)

text \<open>No operation takes a user out of the closed set; \<^verbatim>\<open>openChat\<close> does not either.\<close>

lemma closedChats_kept:
  "closedChats (openChat vp u s) = closedChats s"
  "closedChats s \<subseteq> closedChats (fst (closeChat au V s))"
  "closedChats (minimizeChat V s) = closedChats s"
  "closedChats (updatePosition V p s) = closedChats s"
  "closedChats (fst (markAsRead cu g ok V s)) = closedChats s"
  "closedChats (afterProfileLookup vp l messageData s) = closedChats s"
  by (auto simp: openChat_def closeChat_def minimizeChat_def updatePosition_def markAsRead_def
      afterProfileLookup_def)

lemma closedChats_onMessagesSnapshot:
  "closedChats (fst (onMessagesSnapshot me cap cid docs s)) = closedChats s"
  by (simp add: onMessagesSnapshot_def Let_def split: list.splits option.splits)

text \<open>
  \<^verbatim>\<open>closeChat(U)\<close> leaves no window of \<open>U\<close> in the list and makes \<open>U\<close> a member of the
  closed set. For a conversation whose counterpart is \<open>U\<close>, an effect that has captured
  a closed set containing the one left by \<^verbatim>\<open>closeChat(U)\<close> registers no message
  listener, so a message snapshot of that conversation changes nothing.
\<close>

lemma closeChat_suppresses_auto_open:
  assumes "otherParticipantId me c = Some U"
    and "closedChats (fst (closeChat au U s)) \<subseteq> closedChats cap"
  shows "\<not> list_ex (\<lambda>w. uid (user w) = U) (chatWindows (fst (closeChat au U s)))
    \<and> U \<in> closedChats (fst (closeChat au U s))
    \<and> \<not> listensTo me cap c
    \<and> deliver me cap c docs s' = (s', None)"
proof -
  have mem: "U \<in> closedChats (fst (closeChat au U s))"
    by (simp add: closeChat_def)
  with assms(2) have "U \<in> closedChats cap" by blast
  with assms(1) have "\<not> listensTo me cap c" by (rule not_listening_when_closed)
  then show ?thesis
    using mem closeChat_removes [of U au s] by (simp add: deliver_def)
qed

text \<open>
  When \<open>U\<close> has no window, \<^verbatim>\<open>closeChat(U)\<close> leaves the window list and the cursors as
  they are and adds \<open>U\<close> to the closed set; an effect that runs on the resulting state
  registers no message listener for the conversation with \<open>U\<close>.
\<close>

lemma closeChat_without_window:
  assumes "\<not> list_ex (\<lambda>w. uid (user w) = U) (chatWindows s)"
    and "otherParticipantId me c = Some U"
  shows "chatWindows (fst (closeChat au U s)) = chatWindows s
    \<and> closedChats (fst (closeChat au U s)) = insert U (closedChats s)
    \<and> lastSeenMessageIds (fst (closeChat au U s)) = lastSeenMessageIds s
    \<and> \<not> listensTo me (fst (closeChat au U s)) c
    \<and> deliver me (fst (closeChat au U s)) c docs s' = (s', None)"
proof -
  from assms(1) have "filter (\<lambda>w. uid (user w) \<noteq> U) (chatWindows s) = chatWindows s"
    by (simp add: list_ex_iff)
  then have keep: "chatWindows (fst (closeChat au U s)) = chatWindows s"
    by (simp add: closeChat_def)
  have "U \<in> closedChats (fst (closeChat au U s))"
    by (simp add: closeChat_def)
  with assms(2) have "\<not> listensTo me (fst (closeChat au U s)) c"
    by (rule not_listening_when_closed)
  then show ?thesis
    using keep by (simp add: deliver_def closeChat_def)
qed

text \<open>
  Opening the chat of a closed user again leaves the user in the closed set, so the
  conversation stays skipped by every later effect run.
\<close>

lemma reopened_user_stays_closed:
  "U \<in> closedChats (openChat vp u (fst (closeChat au U s)))"
  by (simp add: openChat_def closeChat_def)

section \<open>Marking as read\<close>




section \<open>The message handler\<close>

lemma find_None_list_ex: "(find P xs = None) = (\<not> list_ex P xs)"
  by (induction xs) simp_all

lemma onMessagesSnapshot_own:
  "senderId (doc_data latestDoc) = me \<Longrightarrow>
   onMessagesSnapshot me cap cid (latestDoc # rest) s = (s, None)"
  by (simp add: onMessagesSnapshot_def Let_def)

lemma onMessagesSnapshot_seen:
  "lastSeenMessageIds cap cid = Some (doc_id latestDoc) \<Longrightarrow>
   onMessagesSnapshot me cap cid (latestDoc # rest) s = (s, None)"
  by (simp add: onMessagesSnapshot_def Let_def)

lemma onMessagesSnapshot_existing:
  assumes "senderId (doc_data latestDoc) \<noteq> me"
    and "lastSeenMessageIds cap cid \<noteq> Some (doc_id latestDoc)"
    and "list_ex (\<lambda>w. uid (user w) = senderId (doc_data latestDoc)) (chatWindows cap)"
  shows "onMessagesSnapshot me cap cid (latestDoc # rest) s =
     (s\<lparr>lastSeenMessageIds := (lastSeenMessageIds s)(cid \<mapsto> doc_id latestDoc),
        chatWindows := map (\<lambda>w. if uid (user w) = senderId (doc_data latestDoc)
                                  then w\<lparr>unreadCount := unreadCount w + 1\<rparr> else w)
                         (chatWindows s)\<rparr>, None)"
proof -
  from assms(3) obtain w where
    "find (\<lambda>w. uid (user w) = senderId (doc_data latestDoc)) (chatWindows cap) = Some w"
    using find_None_list_ex [of "\<lambda>w. uid (user w) = senderId (doc_data latestDoc)" "chatWindows cap"]
    by auto
  then show ?thesis using assms(1,2)
    by (simp add: onMessagesSnapshot_def Let_def)
qed

lemma onMessagesSnapshot_new:
  assumes "senderId (doc_data latestDoc) \<noteq> me"
    and "lastSeenMessageIds cap cid \<noteq> Some (doc_id latestDoc)"
    and "\<not> list_ex (\<lambda>w. uid (user w) = senderId (doc_data latestDoc)) (chatWindows cap)"
  shows "onMessagesSnapshot me cap cid (latestDoc # rest) s =
     (s\<lparr>lastSeenMessageIds := (lastSeenMessageIds s)(cid \<mapsto> doc_id latestDoc)\<rparr>,
      Some (doc_data latestDoc))"
  using assms by (simp add: onMessagesSnapshot_def Let_def find_None_list_ex [THEN iffD2])

text \<open>
  A snapshot whose latest message comes from another user \<open>B\<close>, is not the one recorded
  by the cursor the handler reads, and whose sender has a window in the list the handler
  reads, leaves the window list of the same length; at every index the window keeps its
  id, its user, its minimized flag and its position, its unread count grows by exactly 1
  if it is a window of \<open>B\<close>, and a window of another user is unchanged.
\<close>

lemma existing_window_unread_incremented:
  assumes "senderId (doc_data latestDoc) = B" and "B \<noteq> me"
    and "lastSeenMessageIds cap cid \<noteq> Some (doc_id latestDoc)"
    and "list_ex (\<lambda>w. uid (user w) = B) (chatWindows cap)"
    and "i < length (chatWindows s)"
  shows "length (chatWindows (handleSnapshot me vp l cap cid (latestDoc # rest) s))
        = length (chatWindows s)
    \<and> window_id (chatWindows (handleSnapshot me vp l cap cid (latestDoc # rest) s) ! i)
        = window_id (chatWindows s ! i)
    \<and> user (chatWindows (handleSnapshot me vp l cap cid (latestDoc # rest) s) ! i)
        = user (chatWindows s ! i)
    \<and> isMinimized (chatWindows (handleSnapshot me vp l cap cid (latestDoc # rest) s) ! i)
        = isMinimized (chatWindows s ! i)
    \<and> position (chatWindows (handleSnapshot me vp l cap cid (latestDoc # rest) s) ! i)
        = position (chatWindows s ! i)
    \<and> unreadCount (chatWindows (handleSnapshot me vp l cap cid (latestDoc # rest) s) ! i)
        = (if uid (user (chatWindows s ! i)) = B then unreadCount (chatWindows s ! i) + 1
           else unreadCount (chatWindows s ! i))
    \<and> (if uid (user (chatWindows s ! i)) = B then True
        else chatWindows (handleSnapshot me vp l cap cid (latestDoc # rest) s) ! i
               = chatWindows s ! i)
    \<and> closedChats (handleSnapshot me vp l cap cid (latestDoc # rest) s) = closedChats s"
proof -
  have "onMessagesSnapshot me cap cid (latestDoc # rest) s =
     (s\<lparr>lastSeenMessageIds := (lastSeenMessageIds s)(cid \<mapsto> doc_id latestDoc),
        chatWindows := map (\<lambda>w. if uid (user w) = B
                                  then w\<lparr>unreadCount := unreadCount w + 1\<rparr> else w)
                         (chatWindows s)\<rparr>, None)"
    using onMessagesSnapshot_existing [of latestDoc me cap cid rest s] assms(1-4) by simp
  then show ?thesis using assms(5)
    by (simp add: handleSnapshot_def)
qed

lemma window_created_whatever_lookup:
  assumes "senderId (doc_data latestDoc) \<noteq> me"
    and "lastSeenMessageIds cap cid \<noteq> Some (doc_id latestDoc)"
    and "\<not> list_ex (\<lambda>w. uid (user w) = senderId (doc_data latestDoc)) (chatWindows cap)"
  shows "butlast (chatWindows (handleSnapshot me vp l cap cid (latestDoc # rest) s)) = chatWindows s
    \<and> uid (user (last (chatWindows (handleSnapshot me vp l cap cid (latestDoc # rest) s))))
        = senderId (doc_data latestDoc)"
  using onMessagesSnapshot_new [OF assms, of rest s]
  by (simp add: handleSnapshot_def afterProfileLookup_def senderUser_def Let_def
      split: ProfileFetch.splits)

text \<open>
  Claim C5. For a snapshot whose latest message comes from another user \<open>B\<close>, is not
  the one recorded by the cursor the handler reads, and whose sender has no window in
  the list the handler reads: when the profile fetch throws or finds no record, the
  handler still appends one window for \<open>B\<close>. Its profile carries the name and the photo
  embedded in the message (the empty string when the message has no photo), is not
  verified, and has the role \<open>user\<close> and the status \<open>active\<close>; the window is minimized,
  has one unread message and the cascading position.
\<close>

theorem window_created_despite_lookup_fault:
  assumes "senderId messageData = B" and "B \<noteq> me"
    and "lastSeenMessageIds cap cid \<noteq> Some mid"
    and "\<not> list_ex (\<lambda>w. uid (user w) = B) (chatWindows cap)"
    and "fetched l = NotFound \<or> fetched l = Threw"
  shows "chatWindows (handleSnapshot me vp l cap cid
            (\<lparr>doc_id = mid, doc_data = messageData\<rparr> # rest) s)
      = chatWindows s @
        [\<lparr>window_id = B,
          user = \<lparr>user_id = B, uid = B, displayName = senderName messageData,
                  username = senderName messageData,
                  photoURL = (case senderPhotoURL messageData of None \<Rightarrow> [] | Some p \<Rightarrow> p),
                  email = [], createdAt = nowCreated l, updatedAt = nowUpdated l,
                  isAgeVerified = False, isVerified = False,
                  role = ''user'', status = ''active''\<rparr>,
          isMinimized = True,
          position = newPosition vp (chatWindows s),
          unreadCount = 1\<rparr>]"
proof -
  have photo: "or_str (senderPhotoURL messageData) []
      = (case senderPhotoURL messageData of None \<Rightarrow> [] | Some p \<Rightarrow> p)"
    by (simp add: or_str_def split: option.splits)
  have "onMessagesSnapshot me cap cid (\<lparr>doc_id = mid, doc_data = messageData\<rparr> # rest) s =
     (s\<lparr>lastSeenMessageIds := (lastSeenMessageIds s)(cid \<mapsto> mid)\<rparr>, Some messageData)"
    using onMessagesSnapshot_new [of "\<lparr>doc_id = mid, doc_data = messageData\<rparr>" me cap cid rest s]
      assms(1-4)
    by simp
  then show ?thesis using assms(1,5)
    by (auto simp: handleSnapshot_def afterProfileLookup_def senderUser_def Let_def photo)
qed

theorem window_created_despite_lookup_fault_witness:
  "senderId (doc_data bobMessage) = ''bob'' \<and> ''bob'' \<noteq> ''alice''
   \<and> lastSeenMessageIds (initialRegistry {}) ''alice_bob'' \<noteq> Some ''m1''
   \<and> \<not> list_ex (\<lambda>w. uid (user w) = ''bob'') (chatWindows (initialRegistry {}))
   \<and> (fetched failedLookup = NotFound \<or> fetched failedLookup = Threw)
   \<and> chatWindows (handleSnapshot ''alice'' testViewport failedLookup (initialRegistry {})
        ''alice_bob'' [\<lparr>doc_id = ''m1'', doc_data = doc_data bobMessage\<rparr>] (initialRegistry {}))
      = [\<lparr>window_id = ''bob'',
          user = \<lparr>user_id = ''bob'', uid = ''bob'', displayName = ''Bob'', username = ''Bob'',
                  photoURL = ''bob.png'', email = [], createdAt = 7, updatedAt = 8,
                  isAgeVerified = False, isVerified = False,
                  role = ''user'', status = ''active''\<rparr>,
          isMinimized = True,
          position = \<lparr>pos_x = 30, pos_y = 600\<rparr>,
          unreadCount = 1\<rparr>]"
  using window_created_despite_lookup_fault [of "doc_data bobMessage" "''bob''" "''alice''"
      "initialRegistry {}" "''alice_bob''" "''m1''" failedLookup testViewport "[]"
      "initialRegistry {}"]
  by (simp add: bobMessage_def initialRegistry_def failedLookup_def newPosition_def
      testViewport_def)

section \<open>Repeated deliveries\<close>

lemma handleSnapshot_cursor:
  assumes "senderId (doc_data latestDoc) \<noteq> me"
  shows "lastSeenMessageIds (handleSnapshot me vp l s cid (latestDoc # rest) s) cid
      = Some (doc_id latestDoc)"
proof (cases "lastSeenMessageIds s cid = Some (doc_id latestDoc)")
  case True
  then show ?thesis by (simp add: handleSnapshot_def onMessagesSnapshot_seen)
next
  case False
  show ?thesis
  proof (cases "list_ex (\<lambda>w. uid (user w) = senderId (doc_data latestDoc)) (chatWindows s)")
    case True
    show ?thesis
      by (simp add: handleSnapshot_def onMessagesSnapshot_existing [OF assms False True])
  next
    case no: False
    show ?thesis
      by (simp add: handleSnapshot_def onMessagesSnapshot_new [OF assms False no]
          afterProfileLookup_def)
  qed
qed

text \<open>
  When the whole handler has run on the state its closure captured, and the effect has
  run again on the result, a second snapshot with the same latest message is ignored.
\<close>

lemma redelivery_ignored_by_fresh_closure:
  "handleSnapshot me vp l' (handleSnapshot me vp l s cid (latestDoc # rest) s) cid
      (latestDoc # rest') (handleSnapshot me vp l s cid (latestDoc # rest) s)
    = handleSnapshot me vp l s cid (latestDoc # rest) s"
proof (cases "senderId (doc_data latestDoc) = me")
  case True
  then show ?thesis by (simp add: handleSnapshot_def onMessagesSnapshot_own)
next
  case False
  then show ?thesis
    by (simp add: handleSnapshot_def [of me vp l' "handleSnapshot me vp l s cid (latestDoc # rest) s"]
        onMessagesSnapshot_seen [OF handleSnapshot_cursor])
qed

text \<open>
  Two chats snapshots in one effect run leave two message listeners on the conversation
  with \<open>bob\<close>; one message snapshot is then handed to both.
\<close>

lemma two_chats_snapshots_two_listeners:
  "onChatsSnapshot ''alice'' bobOpen [bobChat] (onChatsSnapshot ''alice'' bobOpen [bobChat] [])
     = [''alice_bob'', ''alice_bob'']"
  by (simp add: onChatsSnapshot_def listensTo_def otherParticipantId_def bobChat_def
      bobOpen_def initialRegistry_def)

text \<open>
  Claim C1. The handler compares the latest message with the cursor its closure
  captured, not with the current one. Here \<open>bob\<close> has a window with nothing unread and
  the snapshot with his message \<open>m1\<close> reaches the same closure twice: the first run
  records \<open>m1\<close> in the current cursor and counts it, and the second run, which still
  reads the captured cursor, counts it again, so the unread count is 2. The same happens
  when one snapshot is handed to two listeners of one effect run.
\<close>

theorem same_snapshot_counted_twice:
  "lastSeenMessageIds
      (handleSnapshot ''alice'' testViewport failedLookup bobOpen ''alice_bob'' [bobMessage] bobOpen)
      ''alice_bob'' = Some ''m1''
   \<and> map unreadCount (chatWindows
       (handleSnapshot ''alice'' testViewport failedLookup bobOpen ''alice_bob'' [bobMessage] bobOpen))
      = [1]
   \<and> map unreadCount (chatWindows
       (handleSnapshot ''alice'' testViewport failedLookup bobOpen ''alice_bob'' [bobMessage]
         (handleSnapshot ''alice'' testViewport failedLookup bobOpen ''alice_bob'' [bobMessage]
            bobOpen)))
      = [2]
   \<and> map unreadCount (chatWindows (fst
        (dispatch ''alice'' bobOpen [''alice_bob'', ''alice_bob''] ''alice_bob'' [bobMessage]
           bobOpen)))
      = [2]"
  by (simp add: handleSnapshot_def onMessagesSnapshot_def bobOpen_def bobMessage_def
      initialRegistry_def testWindow_def testUser_def Let_def)

text \<open>
  Before the effect has run again, the listener of the earlier run is still registered
  and its closure still lists the window that \<^verbatim>\<open>closeChat\<close> has removed. A message of
  \<open>U\<close> that reaches it finds that window in the captured list and maps over the current
  one, in which \<open>U\<close> has none: no window is created.
\<close>

lemma stale_listener_after_close:
  assumes "list_ex (\<lambda>w. uid (user w) = U) (chatWindows s)"
    and "senderId (doc_data latestDoc) = U"
  shows "chatWindows (handleSnapshot me vp l s cid (latestDoc # rest) (fst (closeChat au U s)))
      = chatWindows (fst (closeChat au U s))"
proof (cases "U = me \<or> lastSeenMessageIds s cid = Some (doc_id latestDoc)")
  case True
  then show ?thesis using assms(2)
    by (auto simp: handleSnapshot_def onMessagesSnapshot_own onMessagesSnapshot_seen)
next
  case False
  then have own: "senderId (doc_data latestDoc) \<noteq> me"
    and new: "lastSeenMessageIds s cid \<noteq> Some (doc_id latestDoc)"
    using assms(2) by simp_all
  from assms have has: "list_ex (\<lambda>w. uid (user w) = senderId (doc_data latestDoc)) (chatWindows s)"
    by simp
  have gone: "\<not> list_ex (\<lambda>w. uid (user w) = senderId (doc_data latestDoc))
      (chatWindows (fst (closeChat au U s)))"
    unfolding assms(2) by (rule closeChat_removes)
  show ?thesis
    by (simp add: handleSnapshot_def onMessagesSnapshot_existing [OF own new has]
        map_if_absent [OF gone])
qed

section \<open>One window per counterpart\<close>

lemma uniqueWindows_map_if:
  assumes "\<And>w. user (f w) = user w"
  shows "uniqueWindows (map (\<lambda>w. if uid (user w) = a then f w else w) ws) = uniqueWindows ws"
proof -
  have "map (\<lambda>w. uid (user w)) (map (\<lambda>w. if uid (user w) = a then f w else w) ws)
      = map (\<lambda>w. uid (user w)) ws"
    by (rule uids_map_if) (rule assms)
  then show ?thesis
    unfolding uniqueWindows_def by (simp only:)
qed

lemma uniqueWindows_openChat:
  assumes "uniqueWindows (chatWindows s)"
  shows "uniqueWindows (chatWindows (openChat vp u s))"
proof (cases "list_ex (\<lambda>w. uid (user w) = uid u) (chatWindows s)")
  case True
  then show ?thesis using assms
    by (simp add: openChat_existing uniqueWindows_map_if)
next
  case False
  then have "uid u \<notin> set (map (\<lambda>w. uid (user w)) (chatWindows s))"
    by (force simp: list_ex_iff)
  then show ?thesis using assms False
    by (simp add: openChat_new uniqueWindows_def cascade_def)
qed

lemma uniqueWindows_closeChat:
  "uniqueWindows (chatWindows s) \<Longrightarrow> uniqueWindows (chatWindows (fst (closeChat au U s)))"
  by (simp add: closeChat_def uniqueWindows_def distinct_map_filter)

lemma uniqueWindows_minimizeChat:
  "uniqueWindows (chatWindows s) \<Longrightarrow> uniqueWindows (chatWindows (minimizeChat U s))"
  by (simp add: minimizeChat_def uniqueWindows_map_if)

lemma uniqueWindows_updatePosition:
  "uniqueWindows (chatWindows s) \<Longrightarrow> uniqueWindows (chatWindows (updatePosition U p s))"
  by (simp add: updatePosition_def uniqueWindows_map_if)

lemma uniqueWindows_markAsRead:
  "uniqueWindows (chatWindows s) \<Longrightarrow> uniqueWindows (chatWindows (fst (markAsRead cu g ok U s)))"
  by (simp add: markAsRead_def uniqueWindows_map_if)

lemma senderUser_uid: "uid (senderUser l messageData) = senderId messageData"
  by (simp add: senderUser_def split: ProfileFetch.splits)

text \<open>
  The handler keeps the invariant when the list its closure captured is the current list
  and nothing happens while the profile fetch is pending.
\<close>

lemma uniqueWindows_handleSnapshot:
  assumes "uniqueWindows (chatWindows s)" and "chatWindows cap = chatWindows s"
  shows "uniqueWindows (chatWindows (handleSnapshot me vp l cap cid docs s))"
proof (cases docs)
  case Nil
  then show ?thesis using assms(1) by (simp add: handleSnapshot_def onMessagesSnapshot_def)
next
  case (Cons latestDoc rest)
  show ?thesis
  proof (cases "senderId (doc_data latestDoc) = me
      \<or> lastSeenMessageIds cap cid = Some (doc_id latestDoc)")
    case True
    then show ?thesis using assms(1) Cons
      by (auto simp: handleSnapshot_def onMessagesSnapshot_own onMessagesSnapshot_seen)
  next
    case False
    then have own: "senderId (doc_data latestDoc) \<noteq> me"
      and new: "lastSeenMessageIds cap cid \<noteq> Some (doc_id latestDoc)" by simp_all
    show ?thesis
    proof (cases "list_ex (\<lambda>w. uid (user w) = senderId (doc_data latestDoc)) (chatWindows cap)")
      case True
      show ?thesis using assms(1) unfolding Cons
        by (simp add: handleSnapshot_def onMessagesSnapshot_existing [OF own new True]
            uniqueWindows_map_if)
    next
      case no: False
      then have "senderId (doc_data latestDoc) \<notin> set (map (\<lambda>w. uid (user w)) (chatWindows s))"
        unfolding assms(2) by (force simp: list_ex_iff)
      then show ?thesis using assms(1) unfolding Cons
        by (simp add: handleSnapshot_def onMessagesSnapshot_new [OF own new no]
            afterProfileLookup_def uniqueWindows_def senderUser_uid Let_def)
    qed
  qed
qed

text \<open>
  Claim C2. The handler looks for a window of the sender in the list its closure
  captured, suspends on the profile fetch, and on resuming appends to the current list
  without looking again. Here the registry starts empty, a message of \<open>bob\<close> arrives
  and the handler suspends; \<^verbatim>\<open>openChat\<close> for \<open>bob\<close> runs while the fetch is pending; the
  handler resumes. The list then holds two windows of \<open>bob\<close>, so the invariant, which
  held at the start, is broken.
\<close>

theorem window_duplicated_by_resumed_handler:
  "uniqueWindows (chatWindows (initialRegistry {}))
   \<and> onMessagesSnapshot ''alice'' (initialRegistry {}) ''alice_bob'' [bobMessage] (initialRegistry {})
       = ((initialRegistry {})\<lparr>lastSeenMessageIds := [''alice_bob'' \<mapsto> ''m1'']\<rparr>,
          Some (doc_data bobMessage))
   \<and> map (\<lambda>w. uid (user w))
        (chatWindows (afterProfileLookup testViewport failedLookup (doc_data bobMessage)
           (openChat testViewport (testUser ''bob'')
              ((initialRegistry {})\<lparr>lastSeenMessageIds := [''alice_bob'' \<mapsto> ''m1'']\<rparr>))))
       = [''bob'', ''bob'']
   \<and> \<not> uniqueWindows
        (chatWindows (afterProfileLookup testViewport failedLookup (doc_data bobMessage)
           (openChat testViewport (testUser ''bob'')
              ((initialRegistry {})\<lparr>lastSeenMessageIds := [''alice_bob'' \<mapsto> ''m1'']\<rparr>))))"
  by (simp add: onMessagesSnapshot_def afterProfileLookup_def openChat_def senderUser_def
      uniqueWindows_def failedLookup_def bobMessage_def initialRegistry_def testUser_def Let_def)

text \<open>
  The same duplication without any call of \<^verbatim>\<open>openChat\<close>: with two listeners on the
  conversation, one message of a sender without a window suspends two handlers, and both
  append a window when they resume.
\<close>

lemma one_message_two_windows:
  "snd (dispatch ''alice'' (initialRegistry {}) [''alice_bob'', ''alice_bob''] ''alice_bob''
          [bobMessage] (initialRegistry {}))
     = [doc_data bobMessage, doc_data bobMessage]
   \<and> map (\<lambda>w. (uid (user w), unreadCount w))
        (chatWindows (resumeAll testViewport
           [(failedLookup, doc_data bobMessage), (failedLookup, doc_data bobMessage)]
           (fst (dispatch ''alice'' (initialRegistry {}) [''alice_bob'', ''alice_bob'']
                   ''alice_bob'' [bobMessage] (initialRegistry {})))))
     = [(''bob'', 1), (''bob'', 1)]"
  by (simp add: onMessagesSnapshot_def afterProfileLookup_def senderUser_def failedLookup_def
      bobMessage_def initialRegistry_def Let_def)

section \<open>Handlers that act on a captured state\<close>

text \<open>
  The handler takes its decisions from the lists and sets its closure captured (lines 69,
  87 and 91) and applies them to the state current when it writes, after the \<^verbatim>\<open>await\<close>
  in the case of a new window (line 145). The theorems of this section evaluate the
  operations where the two differ.
\<close>

text \<open>
  Claim C4. The registry \<open>bobTwice\<close> is reached from the empty one: a message of \<open>bob\<close>
  arrives, \<^verbatim>\<open>openChat\<close> for \<open>bob\<close> runs while the profile fetch is pending, the handler
  resumes and appends. It holds two windows of \<open>bob\<close>. \<^verbatim>\<open>openChat\<close> maps over every
  window of the user and removes none, so after two calls for \<open>bob\<close> there are still two
  windows of \<open>bob\<close>, not exactly one.
\<close>

theorem openChat_twice_on_duplicated_window:
  "map (\<lambda>w. (uid (user w), isMinimized w, unreadCount w)) (chatWindows bobTwice)
     = [(''bob'', False, 0), (''bob'', True, 1)]
   \<and> map (\<lambda>w. (uid (user w), isMinimized w, unreadCount w))
        (chatWindows (openChat testViewport (testUser ''bob'')
           (openChat testViewport (testUser ''bob'') bobTwice)))
     = [(''bob'', False, 0), (''bob'', False, 0)]
   \<and> length (windowsOf ''bob''
        (chatWindows (openChat testViewport (testUser ''bob'')
           (openChat testViewport (testUser ''bob'') bobTwice)))) = 2"
  by (simp add: bobTwice_def onMessagesSnapshot_def afterProfileLookup_def openChat_def
      senderUser_def windowsOf_def failedLookup_def bobMessage_def initialRegistry_def
      testUser_def Let_def)

text \<open>
  Claim C8. The listener was registered by an effect run on the empty registry and the
  effect has not run again. First, \<^verbatim>\<open>openChat\<close> has given \<open>bob\<close> a window and a message
  of \<open>bob\<close> arrives: the handler finds no window in the captured list, so the unread
  count of the existing window stays 0 and a second window is appended. Second, the
  window of \<open>bob\<close> was created by the handler for his message \<open>m1\<close> and his message
  \<open>m2\<close> arrives: again the existing window keeps its unread count 1 and a second window
  is appended.
\<close>

theorem message_for_existing_window_adds_window:
  "list_ex (\<lambda>w. uid (user w) = ''bob'')
      (chatWindows (openChat testViewport (testUser ''bob'') (initialRegistry {})))
   \<and> map (\<lambda>w. (uid (user w), isMinimized w, unreadCount w))
        (chatWindows (handleSnapshot ''alice'' testViewport failedLookup (initialRegistry {})
           ''alice_bob'' [bobMessage]
           (openChat testViewport (testUser ''bob'') (initialRegistry {}))))
     = [(''bob'', False, 0), (''bob'', True, 1)]
   \<and> map (\<lambda>w. (uid (user w), isMinimized w, unreadCount w))
        (chatWindows (handleSnapshot ''alice'' testViewport failedLookup (initialRegistry {})
           ''alice_bob'' [bobMessage] (initialRegistry {})))
     = [(''bob'', True, 1)]
   \<and> map (\<lambda>w. (uid (user w), isMinimized w, unreadCount w))
        (chatWindows (handleSnapshot ''alice'' testViewport failedLookup (initialRegistry {})
           ''alice_bob'' [bobMessage2, bobMessage]
           (handleSnapshot ''alice'' testViewport failedLookup (initialRegistry {})
              ''alice_bob'' [bobMessage] (initialRegistry {}))))
     = [(''bob'', True, 1), (''bob'', True, 1)]"
  by (simp add: handleSnapshot_def onMessagesSnapshot_def afterProfileLookup_def openChat_def
      senderUser_def failedLookup_def bobMessage_def bobMessage2_def initialRegistry_def
      testUser_def Let_def)


text \<open>
  Claim C10. \<open>bob\<close> has no window and \<^verbatim>\<open>closeChat\<close> for \<open>bob\<close> leaves the empty list as
  it is and closes \<open>bob\<close>. The listener that the effect registered on the empty registry,
  before the close, is still there; a message of \<open>bob\<close> that reaches it is handled, and
  when the handler resumes a minimized window of \<open>bob\<close> with one unread message is
  created although \<open>bob\<close> is in the closed set.
\<close>

theorem closeChat_without_window_then_auto_open:
  "\<not> list_ex (\<lambda>w. uid (user w) = ''bob'') (chatWindows (initialRegistry {}))
   \<and> fst (closeChat (Some ''alice'') ''bob'' (initialRegistry {})) = initialRegistry {''bob''}
   \<and> listensTo ''alice'' (initialRegistry {}) bobChat
   \<and> deliver ''alice'' (initialRegistry {}) bobChat [bobMessage] (initialRegistry {''bob''})
     = ((initialRegistry {''bob''})\<lparr>lastSeenMessageIds := [''alice_bob'' \<mapsto> ''m1'']\<rparr>,
        Some (doc_data bobMessage))
   \<and> map (\<lambda>w. (uid (user w), isMinimized w, unreadCount w))
        (chatWindows (afterProfileLookup testViewport failedLookup (doc_data bobMessage)
           ((initialRegistry {''bob''})\<lparr>lastSeenMessageIds := [''alice_bob'' \<mapsto> ''m1'']\<rparr>)))
     = [(''bob'', True, 1)]
   \<and> closedChats (afterProfileLookup testViewport failedLookup (doc_data bobMessage)
           ((initialRegistry {''bob''})\<lparr>lastSeenMessageIds := [''alice_bob'' \<mapsto> ''m1'']\<rparr>))
     = {''bob''}"
  by (simp add: deliver_def listensTo_def otherParticipantId_def onMessagesSnapshot_def
      afterProfileLookup_def closeChat_def senderUser_def bobChat_def failedLookup_def
      bobMessage_def initialRegistry_def Let_def)

end
